theory Spec2Isabelle
  imports Main "HOL-Library.Char_ord" "HOL-Library.List_Lexorder" "HOL-Library.Multiset"
begin

section \<open>Data model\<close>

text \<open>
  Python strings are modelled as \<open>string\<close>, one \<open>char\<close> per character; \<open>length\<close> is
  Python's \<open>len\<close>. The order on strings is the lexicographic order on character codes,
  which is how SQLite compares \<open>TEXT\<close> values under its default \<open>BINARY\<close> collation.

  An \<open>issue\<close> is one element of the JSON array returned by the tracker's issues endpoint,
  restricted to the keys the program reads. \<open>issue_body\<close> is \<open>None\<close> when the key is
  absent or null; \<open>issue_pull_request\<close> is \<open>Some v\<close> exactly when the dictionary has the
  key \<open>pull_request\<close>.
\<close>

record issue =
  issue_id :: int
  issue_title :: string
  issue_body :: "string option"
  issue_html_url :: string
  issue_created_at :: string
  issue_pull_request :: "string option"

text \<open>
  A \<open>row\<close> is one row of the table \<open>issues\<close>, with the six columns that
  \<open>get_cached_issues\<close> selects (\<open>cached_at\<close> is written by the storage engine and never
  read by the program). The table is the list of its rows; \<open>id\<close> is its primary key.
\<close>

record row =
  row_id :: int
  row_repo :: string
  row_title :: string
  row_body :: string
  row_html_url :: string
  row_created_at :: string

type_synonym db = "row list"

datatype sqlite_error = IntegrityError

section \<open>database.py\<close>

definition init_db :: db where
  "init_db = []"

text \<open>The tuple bound by the \<open>INSERT\<close> statement: \<open>issue.get('body') or ''\<close> turns an absent body into the empty string.\<close>

definition insert_values :: "string \<Rightarrow> issue \<Rightarrow> row" where
  "insert_values repo i =
     \<lparr>row_id = issue_id i,
      row_repo = repo,
      row_title = issue_title i,
      row_body = (case issue_body i of None \<Rightarrow> [] | Some b \<Rightarrow> b),
      row_html_url = issue_html_url i,
      row_created_at = issue_created_at i\<rparr>"

text \<open>
  The \<open>for issue in issues\<close> loop of \<open>cache_issues\<close>. An \<open>INSERT\<close> whose \<open>id\<close> is already
  in the table violates \<open>PRIMARY KEY\<close> and raises \<open>sqlite3.IntegrityError\<close>. Ids are
  taken to lie in the 64-bit range of an SQLite integer, as the tracker's ids do; an
  id outside it makes the binding raise \<open>OverflowError\<close>, which is not modelled.
\<close>

fun insert_issues :: "string \<Rightarrow> issue list \<Rightarrow> row list \<Rightarrow> sqlite_error + row list" where
  "insert_issues repo [] tbl = Inr tbl"
| "insert_issues repo (i # rest) tbl =
     (if issue_id i \<in> set (map row_id tbl) then Inl IntegrityError
      else insert_issues repo rest (tbl @ [insert_values repo i]))"

text \<open>
  \<open>cache_issues\<close>: \<open>DELETE FROM issues WHERE repo = ?\<close>, the inserts, then \<open>commit\<close>.
  On \<open>sqlite3.Error\<close> the connection is closed without a commit, so the table is as
  before, and the function returns \<open>False\<close>.
\<close>

definition cache_issues :: "db \<Rightarrow> string \<Rightarrow> issue list \<Rightarrow> bool \<times> db" where
  "cache_issues tbl repo issues =
     (case insert_issues repo issues (filter (\<lambda>r. row_repo r \<noteq> repo) tbl) of
        Inl e \<Rightarrow> (False, tbl)
      | Inr tbl' \<Rightarrow> (True, tbl'))"

text \<open>
  \<open>ORDER BY created_at DESC\<close>. The rows of a key are read in the order of their \<open>id\<close>
  (the rowid) and sorted by a stable sort, so that rows of equal \<open>created_at\<close> come out
  in the order of their \<open>id\<close>. (SQL itself leaves the order of equal keys open.)
\<close>

definition order_by_created_at_desc :: "row list \<Rightarrow> row list" where
  "order_by_created_at_desc rows = rev (sort_key row_created_at (rev (sort_key row_id rows)))"

definition get_cached_issues :: "db \<Rightarrow> string \<Rightarrow> row list option" where
  "get_cached_issues tbl repo =
     (let rows = order_by_created_at_desc (filter (\<lambda>r. row_repo r = repo) tbl)
      in if rows = [] then None else Some rows)"

definition repo_exists_in_cache :: "db \<Rightarrow> string \<Rightarrow> bool" where
  "repo_exists_in_cache tbl repo =
     (let count = length (filter (\<lambda>r. row_repo r = repo) tbl)
      in count > 0)"

section \<open>Text helpers\<close>

text \<open>Decimal rendering of a natural number, as \<open>str\<close> and f-strings do.\<close>

function str_nat :: "nat \<Rightarrow> string" where
  "str_nat n = (if n < 10 then [char_of (48 + n)] else str_nat (n div 10) @ [char_of (48 + n mod 10)])"
  by pat_completeness auto
termination
  by (relation "measure (\<lambda>n. n)") auto

declare str_nat.simps [simp del]

text \<open>\<open>sep.join(parts)\<close>.\<close>

fun join :: "string \<Rightarrow> string list \<Rightarrow> string" where
  "join sep [] = []"
| "join sep [p] = p"
| "join sep (p # q # ps) = p @ sep @ join sep (q # ps)"

text \<open>\<open>s.split(sep)\<close> for a one-character separator.\<close>

fun split :: "char \<Rightarrow> string \<Rightarrow> string list" where
  "split sep [] = [[]]"
| "split sep (c # cs) =
     (if c = sep then [] # split sep cs
      else (case split sep cs of [] \<Rightarrow> [[c]] | p # ps \<Rightarrow> (c # p) # ps))"

text \<open>\<open>str.isspace\<close> on the characters below 256, and \<open>s.strip()\<close>.\<close>

definition isspace :: "char \<Rightarrow> bool" where
  "isspace c =
     (let n = (of_char c :: nat)
      in (9 \<le> n \<and> n \<le> 13) \<or> (28 \<le> n \<and> n \<le> 32) \<or> n = 133 \<or> n = 160)"

definition strip :: "string \<Rightarrow> string" where
  "strip s = rev (dropWhile isspace (rev (dropWhile isspace s)))"

definition newline :: string where
  "newline = [CHR 0x0A]"

definition quote :: string where
  "quote = [CHR 0x27]"

section \<open>utils.py\<close>

definition validate_repo_format :: "string \<Rightarrow> bool" where
  "validate_repo_format repo =
     (let parts = split (CHR ''/'') repo
      in length parts = 2 \<and> list_all (\<lambda>part. strip part \<noteq> []) parts)"

section \<open>github_client.py\<close>

text \<open>
  What one \<open>requests.get\<close> does: it returns a response with a status code and a JSON
  body, or raises. The remote side is a function from the page number requested to
  that outcome.
\<close>

datatype response =
    Response nat "issue list"
  | Timeout
  | RequestException string
  | OtherException string

record fetch_result =
  fetch_success :: bool
  fetch_issues :: "issue list"
  fetch_error :: "string option"

definition per_page :: nat where
  "per_page = 100"

definition fetch_failed :: "string \<Rightarrow> fetch_result" where
  "fetch_failed error_msg = \<lparr>fetch_success = False, fetch_issues = [], fetch_error = Some error_msg\<rparr>"

definition fetch_ok :: "issue list \<Rightarrow> fetch_result" where
  "fetch_ok issues = \<lparr>fetch_success = True, fetch_issues = issues, fetch_error = None\<rparr>"

text \<open>\<open>'pull_request' not in issue\<close>.\<close>

definition not_pull_request :: "issue \<Rightarrow> bool" where
  "not_pull_request i = (issue_pull_request i = None)"

text \<open>
  The \<open>while True\<close> loop of \<open>fetch_all_issues\<close>, with the handlers of the enclosing
  \<open>try\<close>. The state is the page number and the issues collected so far; \<open>requested\<close>
  records the page numbers sent to the remote side, in order. The result is \<open>None\<close>
  when the loop never ends.
\<close>

partial_function (option) fetch_pages ::
  "(nat \<Rightarrow> response) \<Rightarrow> bool \<Rightarrow> string \<Rightarrow> nat \<Rightarrow> issue list \<Rightarrow> nat list
     \<Rightarrow> (fetch_result \<times> nat list) option"
where
  "fetch_pages remote github_token repo page issues requested =
     (case remote page of
        Response status_code page_issues \<Rightarrow>
          if status_code = 403 then
            Some (fetch_failed (''GitHub API rate limit exceeded'' @
                    (if \<not> github_token then ''. Add GITHUB_TOKEN to .env for higher limits'' else [])),
                  requested @ [page])
          else if status_code = 404 then
            Some (fetch_failed (''Repository '' @ quote @ repo @ quote @ '' not found''),
                  requested @ [page])
          else if status_code \<noteq> 200 then
            Some (fetch_failed (''GitHub API error: '' @ str_nat status_code), requested @ [page])
          else if page_issues = [] then
            Some (fetch_ok issues, requested @ [page])
          else if length page_issues < per_page then
            Some (fetch_ok (issues @ filter not_pull_request page_issues), requested @ [page])
          else
            fetch_pages remote github_token repo (page + 1)
              (issues @ filter not_pull_request page_issues) (requested @ [page])
      | Timeout \<Rightarrow>
          Some (fetch_failed ''GitHub API request timed out'', requested @ [page])
      | RequestException e \<Rightarrow>
          Some (fetch_failed (''Network error while fetching issues: '' @ e), requested @ [page])
      | OtherException e \<Rightarrow>
          Some (fetch_failed (''Unexpected error: '' @ e), requested @ [page]))"

text \<open>\<open>github_token\<close> is true when the environment variable is set and not empty.\<close>

definition fetch_all_issues ::
  "(nat \<Rightarrow> response) \<Rightarrow> bool \<Rightarrow> string \<Rightarrow> (fetch_result \<times> nat list) option" where
  "fetch_all_issues remote github_token repo = fetch_pages remote github_token repo 1 [] []"

section \<open>llm_client.py\<close>

text \<open>
  A chat completion request carries the two messages; model name, temperature, token
  bound and timeout are constants of the call. The client answers the call of attempt
  number \<open>attempt\<close> with \<open>Inr content\<close>, or raises an exception whose \<open>str\<close> is \<open>e\<close>
  (\<open>Inl e\<close>).
\<close>

record chat_request =
  system_content :: string
  user_content :: string

type_synonym groq_client = "nat \<Rightarrow> chat_request \<Rightarrow> string + string"

record llm_result =
  llm_success :: bool
  llm_analysis :: string
  llm_error :: "string option"

text \<open>The truncation of a body and the \<open>Description\<close> field of \<open>format_issues_for_llm\<close>.\<close>

definition truncate_body :: "string \<Rightarrow> string" where
  "truncate_body body = (if body \<noteq> [] \<and> length body > 500 then take 500 body @ ''...'' else body)"

definition description :: "string \<Rightarrow> string" where
  "description body = (if body \<noteq> [] then body else ''No description provided'')"

text \<open>The f-string template of one block.\<close>

definition issue_block :: "nat \<Rightarrow> string \<Rightarrow> string \<Rightarrow> string \<Rightarrow> string \<Rightarrow> string" where
  "issue_block idx title created_at url shown_body =
     ''Issue #'' @ str_nat idx @ '':'' @ newline @
     ''Title: '' @ title @ newline @
     ''Created: '' @ created_at @ newline @
     ''URL: '' @ url @ newline @
     ''Description: '' @ shown_body @ newline @
     ''---''"

definition issue_text :: "nat \<Rightarrow> row \<Rightarrow> string" where
  "issue_text idx issue =
     (let title = row_title issue;
          body = row_body issue;
          created_at = row_created_at issue;
          url = row_html_url issue;
          body = truncate_body body
      in issue_block idx title created_at url (description body))"

text \<open>The list \<open>formatted_parts\<close> built by \<open>for idx, issue in enumerate(issues, 1)\<close>.\<close>

fun formatted_parts :: "nat \<Rightarrow> row list \<Rightarrow> string list" where
  "formatted_parts idx [] = []"
| "formatted_parts idx (issue # rest) = issue_text idx issue # formatted_parts (idx + 1) rest"

definition format_issues_for_llm :: "row list \<Rightarrow> string" where
  "format_issues_for_llm issues = join (newline @ newline) (formatted_parts 1 issues)"

definition system_prompt :: string where
  "system_prompt =
     ''You are a GitHub issue analyzer. Analyze the provided issues '' @
     ''and respond to the user'' @ quote @ ''s request clearly and concisely. '' @
     ''Focus on actionable insights and patterns.''"

definition user_message :: "string \<Rightarrow> string \<Rightarrow> string" where
  "user_message user_prompt issues_text =
     user_prompt @ newline @ newline @ ''Issues to analyze:'' @ newline @ newline @ issues_text"

text \<open>
  \<open>for attempt in range(max_retries)\<close>: how the loop is left, together with the
  requests sent. \<open>Exhausted\<close> is the loop running to its end without a \<open>return\<close>.
\<close>

datatype loop_exit = Returned string | Raised string | Exhausted

fun retry_loop ::
  "groq_client \<Rightarrow> chat_request \<Rightarrow> nat \<Rightarrow> nat list \<Rightarrow> chat_request list
     \<Rightarrow> loop_exit \<times> chat_request list" where
  "retry_loop client req max_retries [] sent = (Exhausted, sent)"
| "retry_loop client req max_retries (attempt # rest) sent =
     (case client attempt req of
        Inr content \<Rightarrow> (Returned content, sent @ [req])
      | Inl e \<Rightarrow>
          if attempt = max_retries - 1 then (Raised e, sent @ [req])
          else retry_loop client req max_retries rest (sent @ [req]))"

definition max_retries :: nat where
  "max_retries = 2"

text \<open>The size guard: \<open>if len(issues) > 100: issues = issues[:50]\<close>.\<close>

definition limit_issues :: "row list \<Rightarrow> row list" where
  "limit_issues issues = (if length issues > 100 then take 50 issues else issues)"

text \<open>The \<open>messages\<close> argument of \<open>client.chat.completions.create\<close>.\<close>

definition messages :: "string \<Rightarrow> string \<Rightarrow> chat_request" where
  "messages system_prompt' user_message' =
     \<lparr>system_content = system_prompt', user_content = user_message'\<rparr>"

text \<open>
  \<open>analyze_issues\<close>. \<open>client\<close> is \<open>None\<close> when no API key is configured. The first
  component is the dictionary returned (\<open>None\<close> for Python's \<open>None\<close>, returned when the
  loop is exhausted); the second is the list of requests sent to the backend.
\<close>

definition analyze_issues ::
  "groq_client option \<Rightarrow> row list \<Rightarrow> string \<Rightarrow> llm_result option \<times> chat_request list" where
  "analyze_issues client issues user_prompt =
     (case client of
        None \<Rightarrow>
          (Some \<lparr>llm_success = False, llm_analysis = [],
                 llm_error = Some ''Groq API key not configured''\<rparr>, [])
      | Some c \<Rightarrow>
          (let issues' = limit_issues issues;
               issues_text = format_issues_for_llm issues';
               req = messages system_prompt (user_message user_prompt issues_text)
           in case retry_loop c req max_retries [0..<max_retries] [] of
                (Returned analysis, sent) \<Rightarrow>
                  (Some \<lparr>llm_success = True, llm_analysis = analysis, llm_error = None\<rparr>, sent)
              | (Raised e, sent) \<Rightarrow>
                  (Some \<lparr>llm_success = False, llm_analysis = [],
                         llm_error = Some (''LLM analysis error: '' @ e)\<rparr>, sent)
              | (Exhausted, sent) \<Rightarrow> (None, sent)))"

section \<open>main.py\<close>

text \<open>
  The outcome of a request handler: an \<open>HTTPException\<close> with status code, \<open>error\<close> and
  \<open>details\<close>; the response model; or an exception that no handler catches.
\<close>

datatype http_result =
    HTTPException nat string string
  | AnalyzeResponse string
  | Unhandled

definition analyze_repo ::
  "db \<Rightarrow> groq_client option \<Rightarrow> string \<Rightarrow> string \<Rightarrow> http_result \<times> chat_request list" where
  "analyze_repo tbl client request_repo request_prompt =
     (let repo = strip request_repo;
          user_prompt = strip request_prompt
      in if \<not> validate_repo_format repo then
           (HTTPException 400 ''Invalid repository format''
              (''Repository must be in format '' @ quote @ ''owner/repository-name'' @ quote), [])
         else if user_prompt = [] then
           (HTTPException 400 ''Empty prompt'' ''Analysis prompt cannot be empty'', [])
         else if \<not> repo_exists_in_cache tbl repo then
           (HTTPException 400 ''Repository not yet scanned''
              (''Please scan the repository '' @ quote @ repo @ quote @
               '' first using the /scan endpoint''), [])
         else
           (case get_cached_issues tbl repo of
              None \<Rightarrow>
                (HTTPException 500 ''Failed to retrieve cached issues''
                   ''Issues exist but could not be loaded from database'', [])
            | Some issues \<Rightarrow>
                if length issues = 0 then
                  (AnalyzeResponse (''The repository '' @ quote @ repo @ quote @
                     '' has no open issues to analyze.''), [])
                else
                  (case analyze_issues client issues user_prompt of
                     (None, sent) \<Rightarrow> (Unhandled, sent)
                   | (Some result, sent) \<Rightarrow>
                       if \<not> llm_success result then
                         (HTTPException 500 (case llm_error result of None \<Rightarrow> [] | Some e \<Rightarrow> e)
                            ''Failed to analyze issues with LLM'', sent)
                       else (AnalyzeResponse (llm_analysis result), sent))))"

section \<open>Example data\<close>

text \<open>Concrete inputs at which the theorems below are instantiated.\<close>

definition ex_issue :: "int \<Rightarrow> string \<Rightarrow> issue" where
  "ex_issue n created =
     \<lparr>issue_id = n, issue_title = ''t'', issue_body = None, issue_html_url = ''u'',
      issue_created_at = created, issue_pull_request = None\<rparr>"

definition ex_pull :: "int \<Rightarrow> issue" where
  "ex_pull n =
     \<lparr>issue_id = n, issue_title = ''t'', issue_body = None, issue_html_url = ''u'',
      issue_created_at = ''2024'', issue_pull_request = Some ''url''\<rparr>"

definition ex_row :: "string \<Rightarrow> row" where
  "ex_row b =
     \<lparr>row_id = 1, row_repo = ''a/b'', row_title = ''t'', row_body = b,
      row_html_url = ''u'', row_created_at = ''2024''\<rparr>"

text \<open>A backend whose two attempts fail with different messages.\<close>

definition failing_client :: groq_client where
  "failing_client attempt req = (if attempt = 0 then Inl ''first'' else Inl ''second'')"

text \<open>Three pages of 100 issues, a fourth of 37, nothing after.\<close>

definition pages_337 :: "nat \<Rightarrow> issue list" where
  "pages_337 p =
     (if p \<le> 3 then replicate 100 (ex_issue 1 ''2024'')
      else if p = 4 then replicate 37 (ex_issue 1 ''2024'') else [])"

definition remote_337 :: "nat \<Rightarrow> response" where
  "remote_337 p = Response 200 (pages_337 p)"

text \<open>A page of exactly 100 issues, then one of 99.\<close>

definition pages_199 :: "nat \<Rightarrow> issue list" where
  "pages_199 p =
     (if p = 1 then replicate 100 (ex_issue 1 ''2024'')
      else if p = 2 then replicate 99 (ex_issue 1 ''2024'') else [])"

definition remote_199 :: "nat \<Rightarrow> response" where
  "remote_199 p = Response 200 (pages_199 p)"

text \<open>One short page with pull requests before and after an issue.\<close>

definition remote_mixed :: "nat \<Rightarrow> response" where
  "remote_mixed p =
     Response 200 (if p = 1 then [ex_pull 1, ex_issue 2 ''2024'', ex_pull 3] else [])"

section \<open>Lemmas about the store\<close>

lemma insert_issues_appends:
  "insert_issues repo issues tbl = Inr tbl' \<Longrightarrow> tbl' = tbl @ map (insert_values repo) issues"
proof (induction issues arbitrary: tbl)
  case Nil
  then show ?case by simp
next
  case (Cons i rest)
  from Cons.prems have ins: "insert_issues repo rest (tbl @ [insert_values repo i]) = Inr tbl'"
    by (simp split: if_splits)
  show ?case
    using Cons.IH [OF ins] by simp
qed

lemma insert_issues_fresh:
  "distinct (map issue_id issues) \<Longrightarrow> set (map issue_id issues) \<inter> set (map row_id tbl) = {}
   \<Longrightarrow> insert_issues repo issues tbl = Inr (tbl @ map (insert_values repo) issues)"
proof (induction issues arbitrary: tbl)
  case Nil
  then show ?case by simp
next
  case (Cons i rest)
  have "issue_id i \<notin> set (map row_id tbl)"
    using Cons.prems(2) by auto
  moreover have "set (map issue_id rest) \<inter> set (map row_id (tbl @ [insert_values repo i])) = {}"
    using Cons.prems by (auto simp: insert_values_def)
  moreover have "distinct (map issue_id rest)"
    using Cons.prems(1) by simp
  ultimately show ?case
    using Cons.IH [of "tbl @ [insert_values repo i]"] by simp
qed

lemma row_repo_insert_values: "row_repo (insert_values repo i) = repo"
  by (simp add: insert_values_def)

lemma filter_repo_inserted:
  "filter (\<lambda>r. row_repo r = repo) (map (insert_values repo) issues) = map (insert_values repo) issues"
  by (induction issues) (simp_all add: row_repo_insert_values)

lemma filter_other_inserted:
  "repo \<noteq> r2 \<Longrightarrow> filter (\<lambda>r. row_repo r = r2) (map (insert_values repo) issues) = []"
  by (induction issues) (simp_all add: row_repo_insert_values)

lemma filter_repo_deleted:
  "filter (\<lambda>r. row_repo r = repo) (filter (\<lambda>r. row_repo r \<noteq> repo) tbl) = []"
  by (induction tbl) simp_all

lemma filter_other_deleted:
  "repo \<noteq> r2 \<Longrightarrow>
   filter (\<lambda>r. row_repo r = r2) (filter (\<lambda>r. row_repo r \<noteq> repo) tbl) = filter (\<lambda>r. row_repo r = r2) tbl"
  by (induction tbl) auto

lemma cache_issues_rows_of_key:
  assumes "cache_issues tbl repo issues = (True, tbl')"
  shows "filter (\<lambda>r. row_repo r = repo) tbl' = map (insert_values repo) issues"
proof -
  from assms obtain t where ins: "insert_issues repo issues (filter (\<lambda>r. row_repo r \<noteq> repo) tbl) = Inr t"
    and t: "tbl' = t"
    by (auto simp: cache_issues_def split: sum.splits)
  have "tbl' = filter (\<lambda>r. row_repo r \<noteq> repo) tbl @ map (insert_values repo) issues"
    using insert_issues_appends [OF ins] t by simp
  then show ?thesis
    by (simp add: filter_repo_deleted filter_repo_inserted del: filter_filter)
qed

text \<open>
  A replace goes through when the ids given are distinct and none of them is the id of
  a row kept for another repository.
\<close>

lemma cache_issues_succeeds:
  assumes "distinct (map issue_id issues)"
      and "set (map issue_id issues) \<inter> set (map row_id (filter (\<lambda>r. row_repo r \<noteq> repo) tbl)) = {}"
  shows "cache_issues tbl repo issues
           = (True, filter (\<lambda>r. row_repo r \<noteq> repo) tbl @ map (insert_values repo) issues)"
  using insert_issues_fresh [OF assms, of repo]
  by (simp add: cache_issues_def)

lemma order_by_descending:
  "sorted_wrt (\<lambda>a b. row_created_at b \<le> row_created_at a) (order_by_created_at_desc rows)"
proof -
  have "sorted (map row_created_at (sort_key row_created_at (rev (sort_key row_id rows))))"
    by (rule sorted_sort_key)
  then have "sorted_wrt (\<lambda>a b. row_created_at a \<le> row_created_at b)
               (sort_key row_created_at (rev (sort_key row_id rows)))"
    by (simp add: sorted_wrt_map)
  then show ?thesis
    by (simp add: order_by_created_at_desc_def sorted_wrt_rev)
qed

lemma mset_order_by: "mset (order_by_created_at_desc rows) = mset rows"
  by (simp add: order_by_created_at_desc_def)

lemma order_by_Nil_iff: "order_by_created_at_desc rows = [] \<longleftrightarrow> rows = []"
  using mset_order_by [of rows] by (metis mset_zero_iff)

text \<open>What \<open>get_cached_issues\<close> returns, in terms of the rows stored under the key.\<close>

lemma get_cached_issues_None_iff:
  "get_cached_issues tbl repo = None \<longleftrightarrow> filter (\<lambda>r. row_repo r = repo) tbl = []"
  by (simp add: get_cached_issues_def Let_def order_by_Nil_iff)

lemma get_cached_issues_Some:
  assumes "get_cached_issues tbl repo = Some rows"
  shows "rows \<noteq> [] \<and> sorted_wrt (\<lambda>a b. row_created_at b \<le> row_created_at a) rows
         \<and> mset rows = mset (filter (\<lambda>r. row_repo r = repo) tbl)"
  using assms
  by (auto simp: get_cached_issues_def Let_def order_by_descending mset_order_by split: if_splits)

lemma get_cached_issues_untouched: "get_cached_issues init_db repo = None"
  by (simp add: get_cached_issues_None_iff init_db_def)

lemma repo_exists_untouched: "\<not> repo_exists_in_cache init_db repo"
  by (simp add: repo_exists_in_cache_def init_db_def)

section \<open>The snapshot store\<close>

text \<open>
  C10. A replace for one repository key leaves the stored rows of every other key as
  they were: with \<open>repo \<noteq> r2\<close>, the rows whose key is \<open>r2\<close> are the same, in the same
  order, before and after \<open>cache_issues\<close> for \<open>repo\<close>, whether it succeeds or fails.
\<close>

theorem cache_issues_frame:
  assumes "repo \<noteq> r2"
  shows "filter (\<lambda>r. row_repo r = r2) (snd (cache_issues tbl repo issues))
         = filter (\<lambda>r. row_repo r = r2) tbl"
proof (cases "insert_issues repo issues (filter (\<lambda>r. row_repo r \<noteq> repo) tbl)")
  case (Inl e)
  then show ?thesis by (simp add: cache_issues_def)
next
  case (Inr t)
  have "t = filter (\<lambda>r. row_repo r \<noteq> repo) tbl @ map (insert_values repo) issues"
    by (rule insert_issues_appends [OF Inr])
  then show ?thesis
    using Inr assms
    by (simp add: cache_issues_def filter_other_deleted filter_other_inserted del: filter_filter)
qed

text \<open>C10 at a table holding a row of \<open>x/y\<close>, when \<open>a/b\<close> is replaced.\<close>

theorem cache_issues_frame_witness:
  "''a/b'' \<noteq> ''x/y'' \<and>
   filter (\<lambda>r. row_repo r = ''x/y'')
     (snd (cache_issues [insert_values ''x/y'' (ex_issue 1 ''2024'')] ''a/b'' [ex_issue 2 ''2025'']))
   = filter (\<lambda>r. row_repo r = ''x/y'') [insert_values ''x/y'' (ex_issue 1 ''2024'')]"
  using cache_issues_frame [of "''a/b''" "''x/y''" "[insert_values ''x/y'' (ex_issue 1 ''2024'')]"
      "[ex_issue 2 ''2025'']"]
  by simp

text \<open>
  C1. The existence check after a replace with an empty issue list. The claim is that
  \<open>repo_exists_in_cache\<close> is true after any successful replace; in the code a replace
  with no issues succeeds (\<open>cache_issues\<close> returns \<open>True\<close>) and the check is still false,
  for every table and every key.
\<close>

theorem repo_exists_false_after_empty_replace:
  "fst (cache_issues tbl repo []) \<and> \<not> repo_exists_in_cache (snd (cache_issues tbl repo [])) repo"
  by (simp add: cache_issues_def repo_exists_in_cache_def filter_repo_deleted del: filter_filter)

text \<open>
  C2. The read after a replace with an empty issue list. The claim is that
  \<open>get_cached_issues\<close> returns an empty list for a zero-issue snapshot; in the code the
  replace succeeds and the read returns \<open>None\<close>, as for a key never scanned.
\<close>

theorem get_cached_issues_none_after_empty_replace:
  "fst (cache_issues tbl repo []) \<and> get_cached_issues (snd (cache_issues tbl repo [])) repo = None"
  by (simp add: cache_issues_def get_cached_issues_None_iff filter_repo_deleted del: filter_filter)

text \<open>
  C4. Replace, then read. When \<open>cache_issues\<close> succeeds on a list of issues that is not
  empty, \<open>get_cached_issues\<close> for the same key returns rows; these are, counted with
  multiplicity, exactly the issues given, each with its id, title, URL and creation
  timestamp, the key, and its body (the empty string when absent); and along the list
  returned the creation timestamps descend.
\<close>

theorem replace_then_read:
  assumes "cache_issues tbl repo issues = (True, tbl')" and "issues \<noteq> []"
  shows "\<exists>rows. get_cached_issues tbl' repo = Some rows
       \<and> mset rows = mset (map (\<lambda>i. \<lparr>row_id = issue_id i, row_repo = repo,
                                       row_title = issue_title i,
                                       row_body = (case issue_body i of None \<Rightarrow> [] | Some b \<Rightarrow> b),
                                       row_html_url = issue_html_url i,
                                       row_created_at = issue_created_at i\<rparr>) issues)
       \<and> sorted_wrt (\<lambda>a b. row_created_at b \<le> row_created_at a) rows"
proof -
  have rows: "filter (\<lambda>r. row_repo r = repo) tbl' = map (insert_values repo) issues"
    by (rule cache_issues_rows_of_key [OF assms(1)])
  have "order_by_created_at_desc (map (insert_values repo) issues) \<noteq> []"
    using assms(2) by (simp add: order_by_Nil_iff)
  then have got: "get_cached_issues tbl' repo
               = Some (order_by_created_at_desc (map (insert_values repo) issues))"
    by (simp add: get_cached_issues_def rows Let_def)
  have fields: "insert_values repo =
      (\<lambda>i. \<lparr>row_id = issue_id i, row_repo = repo, row_title = issue_title i,
             row_body = (case issue_body i of None \<Rightarrow> [] | Some b \<Rightarrow> b),
             row_html_url = issue_html_url i, row_created_at = issue_created_at i\<rparr>)"
    by (rule ext) (simp add: insert_values_def)
  have "mset (order_by_created_at_desc (map (insert_values repo) issues))
          = mset (map (insert_values repo) issues)"
    by (rule mset_order_by)
  then show ?thesis
    using got order_by_descending [of "map (insert_values repo) issues"] fields
    by auto
qed

text \<open>
  C4 at four issues, three of them created at the same time and given in the order of
  ids 2, 3, 1: the read returns the newest first and the three of equal timestamp in
  the order of their ids.
\<close>

theorem replace_then_read_witness:
  "fst (cache_issues init_db ''a/b''
          [ex_issue 2 ''2024'', ex_issue 3 ''2024'', ex_issue 1 ''2024'', ex_issue 4 ''2025''])
   \<and> [ex_issue 2 ''2024'', ex_issue 3 ''2024'', ex_issue 1 ''2024'', ex_issue 4 ''2025''] \<noteq> []
   \<and> get_cached_issues
        (snd (cache_issues init_db ''a/b''
                [ex_issue 2 ''2024'', ex_issue 3 ''2024'', ex_issue 1 ''2024'', ex_issue 4 ''2025'']))
        ''a/b''
     = Some [\<lparr>row_id = 4, row_repo = ''a/b'', row_title = ''t'', row_body = [],
               row_html_url = ''u'', row_created_at = ''2025''\<rparr>,
             \<lparr>row_id = 1, row_repo = ''a/b'', row_title = ''t'', row_body = [],
               row_html_url = ''u'', row_created_at = ''2024''\<rparr>,
             \<lparr>row_id = 2, row_repo = ''a/b'', row_title = ''t'', row_body = [],
               row_html_url = ''u'', row_created_at = ''2024''\<rparr>,
             \<lparr>row_id = 3, row_repo = ''a/b'', row_title = ''t'', row_body = [],
               row_html_url = ''u'', row_created_at = ''2024''\<rparr>]"
proof -
  let ?issues = "[ex_issue 2 ''2024'', ex_issue 3 ''2024'', ex_issue 1 ''2024'', ex_issue 4 ''2025'']"
  have succ: "fst (cache_issues init_db ''a/b'' ?issues)"
    by (simp add: cache_issues_def init_db_def insert_values_def ex_issue_def)
  then have ok: "cache_issues init_db ''a/b'' ?issues = (True, snd (cache_issues init_db ''a/b'' ?issues))"
    by (simp add: prod_eq_iff)
  have ne: "?issues \<noteq> []"
    by simp
  have got: "get_cached_issues (snd (cache_issues init_db ''a/b'' ?issues)) ''a/b''
     = Some [\<lparr>row_id = 4, row_repo = ''a/b'', row_title = ''t'', row_body = [],
               row_html_url = ''u'', row_created_at = ''2025''\<rparr>,
             \<lparr>row_id = 1, row_repo = ''a/b'', row_title = ''t'', row_body = [],
               row_html_url = ''u'', row_created_at = ''2024''\<rparr>,
             \<lparr>row_id = 2, row_repo = ''a/b'', row_title = ''t'', row_body = [],
               row_html_url = ''u'', row_created_at = ''2024''\<rparr>,
             \<lparr>row_id = 3, row_repo = ''a/b'', row_title = ''t'', row_body = [],
               row_html_url = ''u'', row_created_at = ''2024''\<rparr>]"
    by code_simp
  show ?thesis
    using replace_then_read [OF ok ne] succ got by simp
qed

text \<open>
  C4 as stated fails at two inputs. A replace with the empty list succeeds and the read
  returns \<open>None\<close>, not the empty list. A replace with an issue whose \<open>id\<close> is the primary
  key of a row of another repository is rejected, and the read returns \<open>None\<close>.
\<close>

theorem replace_then_read_counterexample:
  "cache_issues init_db ''a/b'' [] = (True, [])
   \<and> get_cached_issues [] ''a/b'' = None
   \<and> cache_issues [insert_values ''x/y'' (ex_issue 1 ''2024'')] ''a/b'' [ex_issue 1 ''2025'']
       = (False, [insert_values ''x/y'' (ex_issue 1 ''2024'')])
   \<and> get_cached_issues [insert_values ''x/y'' (ex_issue 1 ''2024'')] ''a/b'' = None"
  by (simp add: cache_issues_def init_db_def insert_values_def ex_issue_def get_cached_issues_None_iff)

section \<open>The analyze endpoint\<close>

text \<open>
  C3. Analyze after a scan that stored zero issues. The claim is that the call passes
  the existence gate and answers with the fixed message that there are no open issues.
  In the code, after a successful replace of \<open>a/b\<close> with the empty list, \<open>analyze_repo\<close>
  is stopped at the gate with status 400 and sends nothing to the backend; the branch
  \<open>len(issues) == 0\<close> is never reached.
\<close>

theorem analyze_repo_rejects_empty_snapshot:
  "fst (cache_issues tbl ''a/b'' [])
   \<and> analyze_repo (snd (cache_issues tbl ''a/b'' [])) client ''a/b'' ''p'' =
       (HTTPException 400 ''Repository not yet scanned''
          (''Please scan the repository '' @ quote @ ''a/b'' @ quote @
           '' first using the /scan endpoint''), [])"
proof -
  have gate: "\<not> repo_exists_in_cache (snd (cache_issues tbl ''a/b'' [])) ''a/b''"
    by (simp add: cache_issues_def repo_exists_in_cache_def filter_repo_deleted del: filter_filter)
  have valid: "validate_repo_format ''a/b''"
    by (simp add: validate_repo_format_def strip_def isspace_def Let_def)
  have strip_repo: "strip ''a/b'' = ''a/b''"
    by (simp add: strip_def isspace_def Let_def)
  have strip_prompt: "strip ''p'' = ''p''"
    by (simp add: strip_def isspace_def Let_def)
  have "fst (cache_issues tbl ''a/b'' [])"
    by (simp add: cache_issues_def)
  then show ?thesis
    using gate valid
    by (simp add: analyze_repo_def strip_repo strip_prompt Let_def)
qed

section \<open>The analysis engine\<close>

lemma retry_loop_two_failures:
  assumes "c 0 req = Inl e1" and "c 1 req = Inl e2"
  shows "retry_loop c req max_retries [0..<max_retries] [] = (Raised e2, [req, req])"
proof -
  have "[0..<max_retries] = [0, 1]"
    by (simp add: max_retries_def upt_rec)
  then show ?thesis
    using assms by (simp add: max_retries_def)
qed

lemma retry_loop_sent:
  "\<exists>k. snd (retry_loop c req m attempts sent) = sent @ replicate k req \<and> (attempts \<noteq> [] \<longrightarrow> 0 < k)"
proof (induction attempts arbitrary: sent)
  case Nil
  show ?case by simp
next
  case (Cons attempt rest)
  show ?case
  proof (cases "c attempt req")
    case (Inr content)
    then have "snd (retry_loop c req m (attempt # rest) sent) = sent @ replicate 1 req"
      by simp
    then show ?thesis by blast
  next
    case (Inl e)
    show ?thesis
    proof (cases "attempt = m - 1")
      case True
      with Inl have "snd (retry_loop c req m (attempt # rest) sent) = sent @ replicate 1 req"
        by simp
      then show ?thesis by blast
    next
      case False
      from Cons.IH [of "sent @ [req]"] obtain k where
        k: "snd (retry_loop c req m rest (sent @ [req])) = (sent @ [req]) @ replicate k req"
        by blast
      with Inl False have "snd (retry_loop c req m (attempt # rest) sent) = sent @ replicate (Suc k) req"
        by simp
      then show ?thesis by blast
    qed
  qed
qed

text \<open>With two attempts the loop always leaves through \<open>return\<close> or \<open>raise\<close>.\<close>

lemma retry_loop_not_exhausted:
  "fst (retry_loop c req max_retries [0..<max_retries] []) \<noteq> Exhausted"
proof -
  have "[0..<max_retries] = [0, 1]"
    by (simp add: max_retries_def upt_rec)
  then show ?thesis
    by (simp add: max_retries_def split: sum.splits)
qed

text \<open>
  C5. Two failed attempts. When the backend fails on attempt 0 with \<open>e1\<close> and on attempt
  1 with \<open>e2\<close>, \<open>analyze_issues\<close> sends the request exactly twice and returns the failure
  dictionary whose error is \<open>LLM analysis error:\<close> followed by \<open>e2\<close>, the failure of the
  second attempt. The delay between the attempts is not part of the model.
\<close>

theorem analyze_issues_two_failures:
  assumes "c 0 (messages system_prompt
                  (user_message user_prompt (format_issues_for_llm (limit_issues issues)))) = Inl e1"
      and "c 1 (messages system_prompt
                  (user_message user_prompt (format_issues_for_llm (limit_issues issues)))) = Inl e2"
  shows "analyze_issues (Some c) issues user_prompt =
           (Some \<lparr>llm_success = False, llm_analysis = [],
                  llm_error = Some (''LLM analysis error: '' @ e2)\<rparr>,
            replicate 2 (messages system_prompt
              (user_message user_prompt (format_issues_for_llm (limit_issues issues)))))"
  using retry_loop_two_failures [of c _ e1 e2, OF assms]
  by (simp add: analyze_issues_def Let_def numeral_2_eq_2)

text \<open>C5 at a backend that fails with \<open>first\<close>, then with \<open>second\<close>.\<close>

theorem analyze_issues_two_failures_witness:
  "fst (analyze_issues (Some failing_client) [ex_row ''b''] ''p'') =
     Some \<lparr>llm_success = False, llm_analysis = [], llm_error = Some ''LLM analysis error: second''\<rparr>
   \<and> length (snd (analyze_issues (Some failing_client) [ex_row ''b''] ''p'')) = 2"
  using analyze_issues_two_failures [of failing_client "''p''" "[ex_row ''b'']" "''first''" "''second''"]
  by (simp add: failing_client_def)

text \<open>
  C5 as stated fails: the first attempt failed with \<open>first\<close>, and the error returned
  carries \<open>second\<close>.
\<close>

theorem analyze_issues_two_failures_counterexample:
  "failing_client 0 (messages system_prompt
      (user_message ''p'' (format_issues_for_llm (limit_issues [ex_row ''b''])))) = Inl ''first''
   \<and> fst (analyze_issues (Some failing_client) [ex_row ''b''] ''p'') =
       Some \<lparr>llm_success = False, llm_analysis = [], llm_error = Some ''LLM analysis error: second''\<rparr>
   \<and> fst (analyze_issues (Some failing_client) [ex_row ''b''] ''p'') \<noteq>
       Some \<lparr>llm_success = False, llm_analysis = [], llm_error = Some ''LLM analysis error: first''\<rparr>"
  by (simp add: analyze_issues_def Let_def failing_client_def max_retries_def upt_rec)

lemma formatted_parts_zip:
  "formatted_parts idx issues =
     map (\<lambda>(i, issue). issue_text i issue) (zip [idx..<idx + length issues] issues)"
proof (induction issues arbitrary: idx)
  case Nil
  show ?case by simp
next
  case (Cons issue rest)
  have "[idx..<idx + length (issue # rest)] = idx # [idx + 1..<(idx + 1) + length rest]"
    using upt_conv_Cons [of idx "idx + length (issue # rest)"] by simp
  then show ?case
    using Cons.IH [of "idx + 1"] by simp
qed

lemma length_formatted_parts: "length (formatted_parts idx issues) = length issues"
  by (induction issues arbitrary: idx) simp_all

text \<open>
  C7. The size guard. \<open>analyze_issues\<close> sends at least one request to the backend, and
  the user message of every request it sends is the prompt, a blank line, the line
  \<open>Issues to analyze:\<close>, a blank line, and then the blocks, numbered from 1 and separated
  by blank lines, of the issues submitted: the first 50 issues in input order when
  there are more than 100, all of them otherwise. Above 100 issues the blocks are
  exactly 50.
\<close>

theorem analyze_issues_size_guard:
  "snd (analyze_issues (Some c) issues user_prompt) \<noteq> []
   \<and> (\<forall>req \<in> set (snd (analyze_issues (Some c) issues user_prompt)).
         user_content req =
           (let submitted = (if 100 < length issues then take 50 issues else issues)
            in user_prompt @ [CHR 0x0A, CHR 0x0A] @ ''Issues to analyze:'' @ [CHR 0x0A, CHR 0x0A] @
               join [CHR 0x0A, CHR 0x0A]
                 (map (\<lambda>(idx, issue). issue_text idx issue)
                    (zip [1..<Suc (length submitted)] submitted))))
   \<and> (100 < length issues \<longrightarrow> length (formatted_parts 1 (limit_issues issues)) = 50)
   \<and> (length issues \<le> 100 \<longrightarrow> length (formatted_parts 1 (limit_issues issues)) = length issues)"
proof -
  let ?req = "messages system_prompt (user_message user_prompt (format_issues_for_llm (limit_issues issues)))"
  let ?loop = "retry_loop c ?req max_retries [0..<max_retries] []"
  have snd_eq: "snd (analyze_issues (Some c) issues user_prompt) = snd ?loop"
    by (simp add: analyze_issues_def Let_def split: prod.splits loop_exit.splits)
  have attempts: "[0..<max_retries] \<noteq> []"
    by (simp add: max_retries_def)
  from retry_loop_sent [of c ?req max_retries "[0..<max_retries]" "[]"] attempts
  obtain k where k: "snd ?loop = replicate k ?req" and pos: "0 < k"
    by auto
  have ne: "snd (analyze_issues (Some c) issues user_prompt) \<noteq> []"
    using snd_eq k pos by simp
  have content: "user_content ?req =
           (let submitted = (if 100 < length issues then take 50 issues else issues)
            in user_prompt @ [CHR 0x0A, CHR 0x0A] @ ''Issues to analyze:'' @ [CHR 0x0A, CHR 0x0A] @
               join [CHR 0x0A, CHR 0x0A]
                 (map (\<lambda>(idx, issue). issue_text idx issue)
                    (zip [1..<Suc (length submitted)] submitted)))"
    by (simp add: messages_def user_message_def format_issues_for_llm_def limit_issues_def
          formatted_parts_zip newline_def Let_def)
  have all: "\<forall>req \<in> set (snd (analyze_issues (Some c) issues user_prompt)).
         user_content req =
           (let submitted = (if 100 < length issues then take 50 issues else issues)
            in user_prompt @ [CHR 0x0A, CHR 0x0A] @ ''Issues to analyze:'' @ [CHR 0x0A, CHR 0x0A] @
               join [CHR 0x0A, CHR 0x0A]
                 (map (\<lambda>(idx, issue). issue_text idx issue)
                    (zip [1..<Suc (length submitted)] submitted)))"
    using snd_eq k content by simp
  have big: "100 < length issues \<longrightarrow> length (formatted_parts 1 (limit_issues issues)) = 50"
    by (simp add: limit_issues_def length_formatted_parts)
  have small: "length issues \<le> 100 \<longrightarrow> length (formatted_parts 1 (limit_issues issues)) = length issues"
    by (simp add: limit_issues_def length_formatted_parts)
  from ne all big small show ?thesis
    by blast
qed

text \<open>
  C7 at 120 issues: the message is built from the first 50, in 50 blocks. And at two
  issues, the second without a body: the message sent, character by character.
\<close>

theorem analyze_issues_size_guard_witness:
  "snd (analyze_issues (Some failing_client) (replicate 120 (ex_row ''b'')) ''p'') \<noteq> []
   \<and> user_content (hd (snd (analyze_issues (Some failing_client) (replicate 120 (ex_row ''b'')) ''p'')))
       = ''p'' @ [CHR 0x0A, CHR 0x0A] @ ''Issues to analyze:'' @ [CHR 0x0A, CHR 0x0A] @
         join [CHR 0x0A, CHR 0x0A]
           (map (\<lambda>(idx, issue). issue_text idx issue) (zip [1..<51] (replicate 50 (ex_row ''b''))))
   \<and> 100 < length (replicate 120 (ex_row ''b''))
   \<and> length (formatted_parts 1 (limit_issues (replicate 120 (ex_row ''b'')))) = 50
   \<and> map user_content (snd (analyze_issues (Some failing_client) [ex_row ''b'', ex_row []] ''p''))
       = replicate 2
           (''p'' @ [CHR 0x0A, CHR 0x0A] @ ''Issues to analyze:'' @ [CHR 0x0A, CHR 0x0A] @
            ''Issue #1:'' @ [CHR 0x0A] @ ''Title: t'' @ [CHR 0x0A] @ ''Created: 2024'' @ [CHR 0x0A] @
            ''URL: u'' @ [CHR 0x0A] @ ''Description: b'' @ [CHR 0x0A] @ ''---'' @
            [CHR 0x0A, CHR 0x0A] @
            ''Issue #2:'' @ [CHR 0x0A] @ ''Title: t'' @ [CHR 0x0A] @ ''Created: 2024'' @ [CHR 0x0A] @
            ''URL: u'' @ [CHR 0x0A] @ ''Description: No description provided'' @ [CHR 0x0A] @ ''---'')"
proof -
  let ?sent = "snd (analyze_issues (Some failing_client) (replicate 120 (ex_row ''b'')) ''p'')"
  have big: "100 < length (replicate 120 (ex_row ''b''))"
    by simp
  have ne: "?sent \<noteq> []"
    using analyze_issues_size_guard [of failing_client "replicate 120 (ex_row ''b'')" "''p''"]
    by blast
  then have "hd ?sent \<in> set ?sent"
    by (rule hd_in_set)
  moreover have "[Suc 0..<51] = [Suc 0..<50] @ [50]"
    using upt_Suc_append [of "Suc 0" 50] by simp
  ultimately have first: "user_content (hd ?sent)
       = ''p'' @ [CHR 0x0A, CHR 0x0A] @ ''Issues to analyze:'' @ [CHR 0x0A, CHR 0x0A] @
         join [CHR 0x0A, CHR 0x0A]
           (map (\<lambda>(idx, issue). issue_text idx issue) (zip [1..<51] (replicate 50 (ex_row ''b''))))"
    using analyze_issues_size_guard [of failing_client "replicate 120 (ex_row ''b'')" "''p''"]
    by (simp add: Let_def)
  have blocks: "length (formatted_parts 1 (limit_issues (replicate 120 (ex_row ''b'')))) = 50"
    using analyze_issues_size_guard [of failing_client "replicate 120 (ex_row ''b'')" "''p''"] big
    by blast
  have two: "map user_content (snd (analyze_issues (Some failing_client) [ex_row ''b'', ex_row []] ''p''))
       = replicate 2
           (''p'' @ [CHR 0x0A, CHR 0x0A] @ ''Issues to analyze:'' @ [CHR 0x0A, CHR 0x0A] @
            ''Issue #1:'' @ [CHR 0x0A] @ ''Title: t'' @ [CHR 0x0A] @ ''Created: 2024'' @ [CHR 0x0A] @
            ''URL: u'' @ [CHR 0x0A] @ ''Description: b'' @ [CHR 0x0A] @ ''---'' @
            [CHR 0x0A, CHR 0x0A] @
            ''Issue #2:'' @ [CHR 0x0A] @ ''Title: t'' @ [CHR 0x0A] @ ''Created: 2024'' @ [CHR 0x0A] @
            ''URL: u'' @ [CHR 0x0A] @ ''Description: No description provided'' @ [CHR 0x0A] @ ''---'')"
    by code_simp
  from ne first big blocks two show ?thesis
    by blast
qed




section \<open>The issue source\<close>

lemma fetch_issues_failed: "fetch_issues (fetch_failed msg) = []"
  by (simp add: fetch_failed_def)

lemma fetch_issues_ok: "fetch_issues (fetch_ok issues) = issues"
  by (simp add: fetch_ok_def)

text \<open>
  The loop started at \<open>page\<close>, when every page from there up to \<open>k\<close> is a full page
  with status 200 and page \<open>k\<close> is a short one: it returns, having requested exactly
  the pages \<open>page, \<dots>, k\<close>.
\<close>

lemma fetch_pages_run:
  assumes "\<forall>p. page \<le> p \<and> p < k \<longrightarrow> remote p = Response 200 (pages p) \<and> per_page \<le> length (pages p)"
      and "remote k = Response 200 (pages k)" and "length (pages k) < per_page"
      and "page \<le> k"
  shows "fetch_pages remote github_token repo page issues requested =
           Some (fetch_ok (issues @ concat (map (\<lambda>p. filter not_pull_request (pages p)) [page..<Suc k])),
                 requested @ [page..<Suc k])"
  using assms
proof (induction "k - page" arbitrary: page issues requested)
  case 0
  then have "page = k" by simp
  then show ?case
    using "0.prems"(2,3)
    by (subst fetch_pages.simps) (simp add: fetch_ok_def)
next
  case (Suc n)
  then have lt: "page < k" by simp
  with Suc.prems(1) have here: "remote page = Response 200 (pages page)"
    and full: "per_page \<le> length (pages page)"
    by auto
  have ne: "pages page \<noteq> []"
    using full by (auto simp: per_page_def)
  have rest: "fetch_pages remote github_token repo (page + 1)
                 (issues @ filter not_pull_request (pages page)) (requested @ [page]) =
              Some (fetch_ok ((issues @ filter not_pull_request (pages page)) @
                       concat (map (\<lambda>p. filter not_pull_request (pages p)) [page + 1..<Suc k])),
                    (requested @ [page]) @ [page + 1..<Suc k])"
  proof (rule Suc.hyps(1))
    show "n = k - (page + 1)" using Suc.hyps(2) by simp
    show "\<forall>p. page + 1 \<le> p \<and> p < k \<longrightarrow> remote p = Response 200 (pages p) \<and> per_page \<le> length (pages p)"
      using Suc.prems(1) by simp
    show "remote k = Response 200 (pages k)" by (rule Suc.prems(2))
    show "length (pages k) < per_page" by (rule Suc.prems(3))
    show "page + 1 \<le> k" using lt by simp
  qed
  have upt: "[page..<Suc k] = page # [page + 1..<Suc k]"
    using lt upt_conv_Cons [of page "Suc k"] by simp
  show ?case
    using here full ne rest upt
    by (subst fetch_pages.simps) simp
qed

text \<open>
  Whenever the loop returns, the issues in its result satisfy the filter, provided
  those collected before did.
\<close>

lemma fetch_pages_filtered:
  assumes run: "fetch_pages remote0 github_token0 repo0 page0 issues0 requested0 = Some y0"
  shows "(\<forall>i \<in> set issues0. not_pull_request i)
           \<longrightarrow> (\<forall>i \<in> set (fetch_issues (fst y0)). not_pull_request i)"
proof (rule fetch_pages.raw_induct
    [where P = "\<lambda>remote github_token repo page issues requested y.
       (\<forall>i \<in> set issues. not_pull_request i)
         \<longrightarrow> (\<forall>i \<in> set (fetch_issues (fst y)). not_pull_request i)",
     OF _ run], goal_cases)
  case (1 fetch_pages' remote github_token repo page issues requested y)
  note IH = 1(1) and body = 1(2)
  show ?case
  proof (cases "remote page")
    case (Response status_code page_issues)
    consider (failed) "status_code \<noteq> 200"
      | (empty) "status_code = 200" "page_issues = []"
      | (short) "status_code = 200" "page_issues \<noteq> []" "length page_issues < per_page"
      | (full) "status_code = 200" "page_issues \<noteq> []" "\<not> length page_issues < per_page"
      by blast
    then show ?thesis
    proof cases
      case failed
      then have "\<exists>msg. y = (fetch_failed msg, requested @ [page])"
        using body Response by (auto split: if_splits)
      then show ?thesis
        by (auto simp: fetch_issues_failed)
    next
      case empty
      then have "y = (fetch_ok issues, requested @ [page])"
        using body Response by simp
      then show ?thesis
        by (simp add: fetch_issues_ok)
    next
      case short
      then have "y = (fetch_ok (issues @ filter not_pull_request page_issues), requested @ [page])"
        using body Response by simp
      then show ?thesis
        by (auto simp: fetch_issues_ok)
    next
      case full
      then have rec: "fetch_pages' remote github_token repo (page + 1)
              (issues @ filter not_pull_request page_issues) (requested @ [page]) = Some y"
        using body Response by simp
      have step: "(\<forall>i \<in> set (issues @ filter not_pull_request page_issues). not_pull_request i)
              \<longrightarrow> (\<forall>i \<in> set (fetch_issues (fst y)). not_pull_request i)"
        by (rule IH [OF rec])
      show ?thesis
      proof
        assume "\<forall>i \<in> set issues. not_pull_request i"
        then have "\<forall>i \<in> set (issues @ filter not_pull_request page_issues). not_pull_request i"
          by (simp add: ball_Un)
        with step show "\<forall>i \<in> set (fetch_issues (fst y)). not_pull_request i"
          by (rule_tac mp)
      qed
    qed
  next
    case Timeout
    then have "\<exists>msg. y = (fetch_failed msg, requested @ [page])"
      using body by auto
    then show ?thesis
      by (auto simp: fetch_issues_failed)
  next
    case (RequestException e)
    then have "\<exists>msg. y = (fetch_failed msg, requested @ [page])"
      using body by auto
    then show ?thesis
      by (auto simp: fetch_issues_failed)
  next
    case (OtherException e)
    then have "\<exists>msg. y = (fetch_failed msg, requested @ [page])"
      using body by auto
    then show ?thesis
      by (auto simp: fetch_issues_failed)
  qed
qed

text \<open>
  C6. Pagination. Let page \<open>k \<ge> 1\<close> be answered with status 200 and fewer than 100
  items (possibly none), and every page before it with status 200 and at least 100
  items. Then \<open>fetch_all_issues\<close> returns; the pages it requested are \<open>1, 2, \<dots>, k\<close> in
  this order and no other; the result has \<open>success\<close> true and no error; and its issues
  are the records without the \<open>pull_request\<close> key of these pages, in the order met.
\<close>

theorem fetch_all_issues_stops_at_short_page:
  assumes "1 \<le> k"
      and "\<forall>p. 1 \<le> p \<and> p < k \<longrightarrow> remote p = Response 200 (pages p) \<and> 100 \<le> length (pages p)"
      and "remote k = Response 200 (pages k)" and "length (pages k) < 100"
  shows "fetch_all_issues remote github_token repo =
           Some (\<lparr>fetch_success = True,
                   fetch_issues =
                     concat (map (\<lambda>p. filter (\<lambda>i. issue_pull_request i = None) (pages p)) [1..<Suc k]),
                   fetch_error = None\<rparr>,
                 [1..<Suc k])"
proof -
  have full: "\<forall>p. 1 \<le> p \<and> p < k \<longrightarrow> remote p = Response 200 (pages p) \<and> per_page \<le> length (pages p)"
    using assms(2) by (simp add: per_page_def)
  have short: "length (pages k) < per_page"
    using assms(4) by (simp add: per_page_def)
  have npr: "not_pull_request = (\<lambda>i. issue_pull_request i = None)"
    by (rule ext) (simp add: not_pull_request_def)
  show ?thesis
    using fetch_pages_run [OF full assms(3) short assms(1), of github_token repo "[]" "[]"]
    by (simp add: fetch_all_issues_def fetch_ok_def npr)
qed

text \<open>
  C6 at three pages of 100 issues and a fourth of 37: four requests, success, 337
  issues. And at a page of 100 issues followed by one of 99: two requests, 199 issues.
\<close>

theorem fetch_all_issues_stops_at_short_page_witness:
  "fetch_all_issues remote_337 False ''a/b'' =
     Some (\<lparr>fetch_success = True, fetch_issues = replicate 337 (ex_issue 1 ''2024''),
             fetch_error = None\<rparr>, [1, 2, 3, 4])
   \<and> map_option (\<lambda>(r, requested). (fetch_success r, length (fetch_issues r), requested))
        (fetch_all_issues remote_337 False ''a/b'') = Some (True, 337, [1, 2, 3, 4])
   \<and> map_option (\<lambda>(r, requested). (fetch_success r, length (fetch_issues r), requested))
        (fetch_all_issues remote_199 False ''a/b'') = Some (True, 199, [1, 2])"
proof -
  have full: "\<forall>p. 1 \<le> p \<and> p < 4 \<longrightarrow>
        remote_337 p = Response 200 (pages_337 p) \<and> 100 \<le> length (pages_337 p)"
    by (simp add: remote_337_def pages_337_def)
  have last: "remote_337 4 = Response 200 (pages_337 4)"
    by (simp add: remote_337_def)
  have short: "length (pages_337 4) < 100"
    by (simp add: pages_337_def)
  have upt: "[1..<Suc 4] = [1, 2, 3, 4]"
    by (simp add: upt_rec)
  have issue: "issue_pull_request (ex_issue 1 ''2024'') = None"
    by (simp add: ex_issue_def)
  have cat: "concat (map (\<lambda>p. filter (\<lambda>i. issue_pull_request i = None) (pages_337 p)) [1, 2, 3, 4])
               = replicate 337 (ex_issue 1 ''2024'')"
    by (simp add: pages_337_def issue replicate_add [symmetric])
  have run_337: "fetch_all_issues remote_337 False ''a/b'' =
     Some (\<lparr>fetch_success = True, fetch_issues = replicate 337 (ex_issue 1 ''2024''),
             fetch_error = None\<rparr>, [1, 2, 3, 4])"
    using fetch_all_issues_stops_at_short_page
            [of 4 remote_337 pages_337 False "''a/b''", OF _ full last short] upt cat
    by simp
  have full': "\<forall>p. 1 \<le> p \<and> p < 2 \<longrightarrow>
        remote_199 p = Response 200 (pages_199 p) \<and> 100 \<le> length (pages_199 p)"
    by (simp add: remote_199_def pages_199_def)
  have last': "remote_199 2 = Response 200 (pages_199 2)"
    by (simp add: remote_199_def)
  have short': "length (pages_199 2) < 100"
    by (simp add: pages_199_def)
  have upt': "[1..<Suc 2] = [1, 2]"
    by (simp add: upt_rec)
  have cat': "concat (map (\<lambda>p. filter (\<lambda>i. issue_pull_request i = None) (pages_199 p)) [1, 2])
               = replicate 199 (ex_issue 1 ''2024'')"
    by (simp add: pages_199_def issue replicate_add [symmetric])
  have run_199: "fetch_all_issues remote_199 False ''a/b'' =
     Some (\<lparr>fetch_success = True, fetch_issues = replicate 199 (ex_issue 1 ''2024''),
             fetch_error = None\<rparr>, [1, 2])"
    using fetch_all_issues_stops_at_short_page
            [of 2 remote_199 pages_199 False "''a/b''", OF _ full' last' short'] upt' cat'
    by simp
  show ?thesis
    using run_337 run_199 by simp
qed

text \<open>
  C8. Whatever the remote side answers and wherever pull requests stand in the pages,
  no record in the result of \<open>fetch_all_issues\<close> carries the \<open>pull_request\<close> key.
\<close>

theorem fetch_all_issues_no_pull_requests:
  assumes "fetch_all_issues remote github_token repo = Some (result, requested)"
  shows "\<forall>i \<in> set (fetch_issues result). issue_pull_request i = None"
  using fetch_pages_filtered [of remote github_token repo 1 "[]" "[]" "(result, requested)"] assms
  by (simp add: fetch_all_issues_def not_pull_request_def)

text \<open>C8 at a page holding a pull request, an issue and another pull request.\<close>

theorem fetch_all_issues_no_pull_requests_witness:
  "fetch_all_issues remote_mixed False ''a/b'' = Some (fetch_ok [ex_issue 2 ''2024''], [1])
   \<and> issue_pull_request (ex_issue 2 ''2024'') = None"
proof -
  have run: "fetch_all_issues remote_mixed False ''a/b'' = Some (fetch_ok [ex_issue 2 ''2024''], [1])"
    unfolding fetch_all_issues_def
    by (subst fetch_pages.simps)
       (simp add: remote_mixed_def per_page_def not_pull_request_def ex_issue_def ex_pull_def)
  show ?thesis
    using fetch_all_issues_no_pull_requests [OF run] run by (simp add: fetch_issues_ok)
qed

end
